theory Spec2Isabelle
  imports Complex_Main
begin

section \<open>Upstream feed client (polygon-client.go)\<close>

subsection \<open>Data model\<close>

text \<open>
  Go's \<^verbatim>\<open>float64\<close> fields are only copied by the code modelled here, never computed
  with, so they are carried as reals. \<^verbatim>\<open>int\<close>, \<^verbatim>\<open>int64\<close> and \<^verbatim>\<open>time.Duration\<close> are
  mathematical integers: the only arithmetic done on them is \<open>count + 1\<close>, \<open>count - 1\<close> and
  \<open>reconnectDelay * retryCount\<close> with \<open>retryCount \<le> maxRetries = 10\<close>, far inside 64 bits.
  Durations and instants are in nanoseconds; a handler reads the clock once, its
  parameter \<open>now\<close>. The \<^verbatim>\<open>Raw\<close> field of \<^verbatim>\<open>PolygonMessage\<close>, the undecoded bytes, is left out.
\<close>

type_synonym float64 = real

definition Second :: int where
  "Second = 1000000000"

text \<open>\<^verbatim>\<open>Time.UnixMilli\<close> of an instant.\<close>

definition UnixMilli :: "int \<Rightarrow> int" where
  "UnixMilli t = t div 1000000"

record PolygonMessage =
  EventType :: string
  Symbol :: string
  Price :: float64
  Size :: int
  Exchange :: int
  Timestamp_pm :: int
  Conditions :: "int list"
  BidPrice :: float64
  BidSize :: int
  AskPrice :: float64
  AskSize :: int
  Open :: float64
  High :: float64
  Low :: float64
  Close :: float64
  Volume :: int
  VWAP :: float64

text \<open>\<^verbatim>\<open>PolygonAuthMessage\<close> and \<^verbatim>\<open>PolygonSubscribeMessage\<close> have the same two fields.\<close>

record PolygonSubscribeMessage =
  Action :: string
  Params :: string

datatype polygon_error =
    DialFailed
  | NotConnectedOrAuthenticated
  | NotConnected
  | WriteFailed
  | AuthenticationFailed

text \<open>
  The client struct. \<open>ws_up\<close> stands for the transport handle \<^verbatim>\<open>ws\<close>: true while the
  connection is open and accepts writes. \<open>reader_running\<close> says whether a \<^verbatim>\<open>readMessages\<close>
  goroutine is in its loop. \<open>reconnectTimer\<close> holds the delay of the pending
  \<^verbatim>\<open>time.AfterFunc\<close>, if any. Two logs record the client's effects on the outside:
  \<open>written\<close>, the frames handed to \<^verbatim>\<open>ws.WriteMessage\<close> in order, and \<open>handled\<close>, the
  messages passed to \<^verbatim>\<open>messageHandler\<close> in order.
\<close>

record PolygonClient =
  apiKey :: string
  ws_up :: bool
  reader_running :: bool
  connected :: bool
  authenticated :: bool
  subscriptions_pc :: "string set"
  reconnectTimer :: "int option"
  reconnectDelay :: int
  maxRetries :: int
  retryCount :: int
  written :: "PolygonSubscribeMessage list"
  handled :: "PolygonMessage list"

definition NewPolygonClient :: "string \<Rightarrow> PolygonClient" where
  "NewPolygonClient key =
     \<lparr>apiKey = key, ws_up = False, reader_running = False, connected = False,
      authenticated = False, subscriptions_pc = {}, reconnectTimer = None,
      reconnectDelay = 5 * Second,
      maxRetries = 10, retryCount = 0, written = [], handled = []\<rparr>"

text \<open>\<^verbatim>\<open>ws.WriteMessage\<close>: the frame is handed to the transport; the call fails when the
  transport is down.\<close>

definition WriteMessage ::
  "PolygonSubscribeMessage \<Rightarrow> PolygonClient \<Rightarrow> polygon_error option \<times> PolygonClient" where
  "WriteMessage f pc =
     (if ws_up pc then None else Some WriteFailed, pc\<lparr>written := written pc @ [f]\<rparr>)"

text \<open>\<^verbatim>\<open>strings.Join\<close>.\<close>

fun Join :: "string list \<Rightarrow> string \<Rightarrow> string" where
  "Join [] sep = []"
| "Join [x] sep = x"
| "Join (x # y # xs) sep = x @ sep @ Join (y # xs) sep"

text \<open>The loop of \<^verbatim>\<open>Subscribe\<close>: each symbol appends three tokens to \<open>params\<close> and is
  entered in the subscriptions map.\<close>

fun subscribe_loop ::
  "string list \<Rightarrow> string list \<times> string set \<Rightarrow> string list \<times> string set" where
  "subscribe_loop [] (params, subs) = (params, subs)"
| "subscribe_loop (symbol # symbols) (params, subs) =
     subscribe_loop symbols
       (params @ [''T.'' @ symbol, ''Q.'' @ symbol, ''A.'' @ symbol], insert symbol subs)"

definition Subscribe ::
  "string list \<Rightarrow> PolygonClient \<Rightarrow> polygon_error option \<times> PolygonClient" where
  "Subscribe symbols pc =
     (if \<not> connected pc \<or> \<not> authenticated pc then (Some NotConnectedOrAuthenticated, pc)
      else
        (case subscribe_loop symbols ([], subscriptions_pc pc) of
           (params, subs) \<Rightarrow>
             WriteMessage \<lparr>Action = ''subscribe'', Params = Join params '',''\<rparr>
               (pc\<lparr>subscriptions_pc := subs\<rparr>)))"


text \<open>\<^verbatim>\<open>Unsubscribe\<close> checks \<open>connected\<close> only.\<close>

fun unsubscribe_loop ::
  "string list \<Rightarrow> string list \<times> string set \<Rightarrow> string list \<times> string set" where
  "unsubscribe_loop [] (params, subs) = (params, subs)"
| "unsubscribe_loop (symbol # symbols) (params, subs) =
     unsubscribe_loop symbols
       (params @ [''T.'' @ symbol, ''Q.'' @ symbol, ''A.'' @ symbol], subs - {symbol})"

definition Unsubscribe ::
  "string list \<Rightarrow> PolygonClient \<Rightarrow> polygon_error option \<times> PolygonClient" where
  "Unsubscribe symbols pc =
     (if \<not> connected pc then (Some NotConnected, pc)
      else
        (case unsubscribe_loop symbols ([], subscriptions_pc pc) of
           (params, subs) \<Rightarrow>
             WriteMessage \<lparr>Action = ''unsubscribe'', Params = Join params '',''\<rparr>
               (pc\<lparr>subscriptions_pc := subs\<rparr>)))"

definition IsConnected :: "PolygonClient \<Rightarrow> bool" where
  "IsConnected pc = (connected pc \<and> authenticated pc)"

subsection \<open>Inbound frames\<close>

text \<open>
  JSON decoding is not modelled; a frame arrives already classified the way
  \<^verbatim>\<open>handleMessage\<close> classifies it. A frame that is not a JSON array is \<open>BadFrame\<close>. A record
  of a batch is a status record (its \<^verbatim>\<open>status\<close> is not empty), a data record (its \<^verbatim>\<open>ev\<close> is
  not empty and it decodes into a \<^verbatim>\<open>PolygonMessage\<close>), a record that does not decode, or a
  record with neither field, which is skipped.
\<close>

datatype upstream_record =
    StatusRecord string string
  | DataRecord PolygonMessage
  | UndecodableRecord
  | OtherRecord

datatype upstream_frame = Batch "upstream_record list" | BadFrame

definition handleStatusMessage :: "string \<Rightarrow> string \<Rightarrow> PolygonClient \<Rightarrow> PolygonClient" where
  "handleStatusMessage status message pc =
     (if status = ''auth_success'' then pc\<lparr>authenticated := True\<rparr>
      else if status = ''auth_failed'' then pc\<lparr>authenticated := False\<rparr>
      else pc)"

definition handleDataMessage :: "PolygonMessage \<Rightarrow> PolygonClient \<Rightarrow> PolygonClient" where
  "handleDataMessage msg pc = pc\<lparr>handled := handled pc @ [msg]\<rparr>"

fun handleRecord :: "upstream_record \<Rightarrow> PolygonClient \<Rightarrow> PolygonClient" where
  "handleRecord (StatusRecord status message) pc = handleStatusMessage status message pc"
| "handleRecord (DataRecord msg) pc = handleDataMessage msg pc"
| "handleRecord UndecodableRecord pc = pc"
| "handleRecord OtherRecord pc = pc"

fun handleMessage_pc :: "upstream_frame \<Rightarrow> PolygonClient \<Rightarrow> PolygonClient" where
  "handleMessage_pc BadFrame pc = pc"
| "handleMessage_pc (Batch records) pc = fold handleRecord records pc"

subsection \<open>Reconnect\<close>

definition scheduleReconnect :: "PolygonClient \<Rightarrow> PolygonClient" where
  "scheduleReconnect pc =
     (if retryCount pc \<ge> maxRetries pc then pc
      else
        (let n = retryCount pc + 1;
             delay = reconnectDelay pc * n
         in pc\<lparr>retryCount := n, reconnectTimer := Some delay\<rparr>))"

text \<open>
  \<^verbatim>\<open>readMessages\<close> handles frames until a read fails; its deferred function then runs,
  the only caller of \<^verbatim>\<open>scheduleReconnect\<close>.
\<close>

definition readMessages_exit :: "PolygonClient \<Rightarrow> PolygonClient" where
  "readMessages_exit pc =
     scheduleReconnect
       (pc\<lparr>connected := False, authenticated := False, ws_up := False,
           reader_running := False\<rparr>)"

subsection \<open>Connect and authenticate\<close>

text \<open>
  \<^verbatim>\<open>authenticate\<close> writes the credential frame, sleeps two seconds and then reads the
  \<open>authenticated\<close> flag, which only the reader goroutine sets. \<open>inbound\<close> is what the reader
  handles during the sleep.
\<close>

definition authenticate ::
  "upstream_frame list \<Rightarrow> PolygonClient \<Rightarrow> polygon_error option \<times> PolygonClient" where
  "authenticate inbound pc =
     (case WriteMessage \<lparr>Action = ''auth'', Params = apiKey pc\<rparr> pc of
        (Some e, pc1) \<Rightarrow> (Some e, pc1)
      | (None, pc1) \<Rightarrow>
          (let pc2 = fold handleMessage_pc inbound pc1
           in if \<not> authenticated pc2 then (Some AuthenticationFailed, pc2) else (None, pc2)))"

text \<open>
  \<^verbatim>\<open>Connect\<close>. \<open>dial_ok\<close> is the outcome of the dial. After a successful dial the reader
  goroutine runs on the new connection. When \<open>authenticate\<close> fails, \<open>Connect\<close> closes the
  connection; the reader's pending read then fails and its deferred function runs, which
  is \<open>readMessages_exit\<close>.
\<close>

definition Connect ::
  "bool \<Rightarrow> upstream_frame list \<Rightarrow> PolygonClient \<Rightarrow> polygon_error option \<times> PolygonClient" where
  "Connect dial_ok inbound pc =
     (if \<not> dial_ok then (Some DialFailed, pc)
      else
        (case authenticate inbound
                (pc\<lparr>ws_up := True, connected := True, retryCount := 0,
                    reader_running := True\<rparr>) of
           (Some e, pc1) \<Rightarrow> (Some e, readMessages_exit (pc1\<lparr>ws_up := False\<rparr>))
         | (None, pc1) \<Rightarrow> (None, pc1)))"

text \<open>
  The function run by the reconnect timer: \<^verbatim>\<open>Connect\<close>, and on success one \<^verbatim>\<open>Subscribe\<close>
  for all symbols of the subscriptions map. Go ranges over the map in no fixed order;
  \<open>order\<close> is the order taken, a list of the symbols of the map.
\<close>

definition reconnect_fire ::
  "bool \<Rightarrow> upstream_frame list \<Rightarrow> string list \<Rightarrow> PolygonClient \<Rightarrow> PolygonClient" where
  "reconnect_fire dial_ok inbound order pc =
     (case Connect dial_ok inbound (pc\<lparr>reconnectTimer := None\<rparr>) of
        (Some e, pc1) \<Rightarrow> pc1
      | (None, pc1) \<Rightarrow>
          (let symbols = filter (\<lambda>x. x \<in> subscriptions_pc pc1) (remdups order)
           in if length symbols > 0 then snd (Subscribe symbols pc1) else pc1))"

subsection \<open>The life of the client\<close>





section \<open>Fan-out server (api-handlers.go, WebSocket server part)\<close>

subsection \<open>Messages\<close>

datatype payload = NoData | PolygonData PolygonMessage

datatype meta_value = MetaString string | MetaInt int

text \<open>
  \<^verbatim>\<open>Message\<close>. \<open>Metadata\<close> is the Go map as an association list, \<open>None\<close> for the nil map.
  \<^verbatim>\<open>json.Marshal\<close> of a message is not modelled: a queue holds the message itself. The
  marshalled values here come from JSON or from string and integer literals, so
  \<^verbatim>\<open>json.Marshal\<close> has no error to return on them.
\<close>

record Message =
  Type :: string
  Channel :: string
  Data :: payload
  Timestamp :: int
  Symbols :: "string list"
  Metadata :: "(string \<times> meta_value) list option"

record SubscriptionRequest =
  req_Type :: string
  req_Channel :: string
  req_Symbols :: "string list"

definition TransformPolygonMessage :: "PolygonMessage \<Rightarrow> int \<Rightarrow> Message" where
  "TransformPolygonMessage pm now =
     (let channel =
            (if EventType pm = ''T'' then ''trades''
             else if EventType pm = ''Q'' then ''quotes''
             else if EventType pm = ''A'' then ''aggregates''
             else if EventType pm = ''AM'' then ''aggregates''
             else ''market-data'')
      in \<lparr>Type = ''market-data'', Channel = channel, Data = PolygonData pm, Timestamp = UnixMilli now,
          Symbols = [Symbol pm],
          Metadata = Some [(''source'', MetaString ''polygon''),
                           (''event_type'', MetaString (EventType pm)),
                           (''exchange'', MetaInt (Exchange pm))]\<rparr>)"

subsection \<open>State\<close>

text \<open>
  A \<^verbatim>\<open>*Client\<close> is a reference into \<open>heap\<close>. \<open>send\<close> is the content of the buffered channel
  (oldest first) and \<open>send_closed\<close> says whether it was closed; \<open>conn_open\<close> stands for the
  connection, \<open>conn_written\<close> logs what \<^verbatim>\<open>writePump\<close> wrote to it and \<open>writer_running\<close>
  says whether the \<^verbatim>\<open>writePump\<close> goroutine is still in its loop. \<open>readDeadline\<close> is the
  read deadline set on the connection: a read still pending at that instant fails.
\<close>

type_synonym client_ref = nat

record Client =
  conn_open :: bool
  conn_written :: "Message list"
  writer_running :: bool
  send :: "Message list"
  send_closed :: bool
  subscriptions_c :: "string set"
  client_id :: string
  lastSeen :: int
  readDeadline :: int

text \<open>
  \<^verbatim>\<open>readPump\<close> runs \<^verbatim>\<open>go c.handleMessage(message)\<close> for every frame it reads, so the
  handlers of a session run concurrently with each other and with everything else. A
  handler is a sequence of steps, each of them one critical section or one channel send
  of the source: the section of \<^verbatim>\<open>c.mu\<close> and the section of \<^verbatim>\<open>subscriptionsLock\<close> in
  \<^verbatim>\<open>subscribe\<close> and in \<^verbatim>\<open>unsubscribe\<close>, the call of \<^verbatim>\<open>subscribeToPolygon\<close> (one section of
  \<^verbatim>\<open>polygonSymbolsLock\<close>), and \<^verbatim>\<open>sendMessage\<close> with the type, channel and symbols of the
  reply.
\<close>

datatype action =
    AddLocal client_ref string
  | AddRegistry client_ref string
  | AcquireUpstream "string list"
  | DropLocal client_ref string
  | DropRegistry client_ref string
  | Reply client_ref string string "string list"

text \<open>
  The package-level variables. \<open>polygonClient = None\<close> is the nil pointer. \<open>allocated\<close> are
  the references in use, \<open>goroutines\<close> holds the steps left of every handler goroutine
  that has started and not ended, and \<open>clock\<close> is the time of the latest timed step, in
  nanoseconds since the start of the server.
\<close>

record Server =
  heap :: "client_ref \<Rightarrow> Client"
  allocated :: "client_ref set"
  clients :: "client_ref set"
  broadcast :: "Message list"
  subscriptions :: "string \<rightharpoonup> client_ref set"
  polygonSymbols :: "string \<rightharpoonup> int"
  polygonClient :: "PolygonClient option"
  goroutines :: "action list list"
  clock :: int

text \<open>
  A send on a closed channel panics; nothing recovers, so the process ends. \<open>NotEnabled\<close>
  is no error of the program: it marks a step that the program cannot take in the state
  at hand, so that a sequence of steps with this result is not a run of the program.
\<close>

datatype server_error = SendOnClosedChannel | NotEnabled

definition send_capacity :: nat where
  "send_capacity = 256"

definition broadcast_capacity :: nat where
  "broadcast_capacity = 1000"

text \<open>The non-blocking send \<^verbatim>\<open>select { case ch <- data: default: }\<close> on an open channel.\<close>

definition try_send :: "Message \<Rightarrow> Client \<Rightarrow> Client" where
  "try_send data cl =
     (if length (send cl) < send_capacity then cl\<lparr>send := send cl @ [data]\<rparr> else cl)"

definition sendMessage :: "client_ref \<Rightarrow> Message \<Rightarrow> Server \<Rightarrow> server_error + Server" where
  "sendMessage c msg s =
     (if send_closed (heap s c) then Inl SendOnClosedChannel
      else Inr (s\<lparr>heap := (heap s)(c := try_send msg (heap s c))\<rparr>))"

subsection \<open>Upstream reference counts\<close>

fun subscribe_count_loop ::
  "string list \<Rightarrow> (string \<rightharpoonup> int) \<times> string list \<Rightarrow> (string \<rightharpoonup> int) \<times> string list" where
  "subscribe_count_loop [] (m, newSymbols) = (m, newSymbols)"
| "subscribe_count_loop (symbol # symbols) (m, newSymbols) =
     (case m symbol of
        Some count \<Rightarrow> subscribe_count_loop symbols (m(symbol \<mapsto> count + 1), newSymbols)
      | None \<Rightarrow> subscribe_count_loop symbols (m(symbol \<mapsto> 1), newSymbols @ [symbol]))"

definition subscribeToPolygon :: "string list \<Rightarrow> Server \<Rightarrow> Server" where
  "subscribeToPolygon symbols s =
     (case polygonClient s of
        None \<Rightarrow> s
      | Some pc \<Rightarrow>
          if \<not> IsConnected pc then s
          else
            (case subscribe_count_loop symbols (polygonSymbols s, []) of
               (m, newSymbols) \<Rightarrow>
                 s\<lparr>polygonSymbols := m,
                   polygonClient :=
                     Some (if length newSymbols > 0 then snd (Subscribe newSymbols pc) else pc)\<rparr>))"

fun unsubscribe_count_loop ::
  "string list \<Rightarrow> (string \<rightharpoonup> int) \<times> string list \<Rightarrow> (string \<rightharpoonup> int) \<times> string list" where
  "unsubscribe_count_loop [] (m, removeSymbols) = (m, removeSymbols)"
| "unsubscribe_count_loop (symbol # symbols) (m, removeSymbols) =
     (case m symbol of
        Some count \<Rightarrow>
          if count \<le> 1
          then unsubscribe_count_loop symbols (m(symbol := None), removeSymbols @ [symbol])
          else unsubscribe_count_loop symbols (m(symbol \<mapsto> count - 1), removeSymbols)
      | None \<Rightarrow> unsubscribe_count_loop symbols (m, removeSymbols))"

text \<open>\<^verbatim>\<open>unsubscribeFromPolygon\<close> is defined in the source and called from nowhere.\<close>

definition unsubscribeFromPolygon :: "string list \<Rightarrow> Server \<Rightarrow> Server" where
  "unsubscribeFromPolygon symbols s =
     (case polygonClient s of
        None \<Rightarrow> s
      | Some pc \<Rightarrow>
          if \<not> IsConnected pc then s
          else
            (case unsubscribe_count_loop symbols (polygonSymbols s, []) of
               (m, removeSymbols) \<Rightarrow>
                 s\<lparr>polygonSymbols := m,
                   polygonClient :=
                     Some (if length removeSymbols > 0 then snd (Unsubscribe removeSymbols pc)
                           else pc)\<rparr>))"

subsection \<open>Client intents\<close>

text \<open>The key \<^verbatim>\<open>Client.subscribe\<close> computes: the channel, or the channel, a colon and the
  first symbol.\<close>

definition subscription_key :: "string \<Rightarrow> string list \<Rightarrow> string" where
  "subscription_key channel symbols =
     (case symbols of [] \<Rightarrow> channel | first # rest \<Rightarrow> channel @ '':'' @ first)"

definition add_subscriber ::
  "string \<Rightarrow> client_ref \<Rightarrow> (string \<rightharpoonup> client_ref set) \<Rightarrow> (string \<rightharpoonup> client_ref set)" where
  "add_subscriber key c subs =
     subs(key \<mapsto> insert c (case subs key of None \<Rightarrow> {} | Some cs \<Rightarrow> cs))"

definition remove_subscriber ::
  "string \<Rightarrow> client_ref \<Rightarrow> (string \<rightharpoonup> client_ref set) \<Rightarrow> (string \<rightharpoonup> client_ref set)" where
  "remove_subscriber key c subs =
     (case subs key of None \<Rightarrow> subs | Some cs \<Rightarrow> subs(key \<mapsto> cs - {c}))"

definition subscribe ::
  "client_ref \<Rightarrow> string \<Rightarrow> string list \<Rightarrow> int \<Rightarrow> Server \<Rightarrow> server_error + Server" where
  "subscribe c channel symbols now s =
     (let key = subscription_key channel symbols;
          cl = heap s c;
          s1 = s\<lparr>heap := (heap s)(c := cl\<lparr>subscriptions_c := insert key (subscriptions_c cl)\<rparr>)\<rparr>;
          s2 = s1\<lparr>subscriptions := add_subscriber key c (subscriptions s1)\<rparr>;
          s3 = (if length symbols > 0 \<and>
                   (channel = ''trades'' \<or> channel = ''quotes'' \<or> channel = ''market-data'')
                then subscribeToPolygon symbols s2 else s2)
      in sendMessage c
           \<lparr>Type = ''subscribed'', Channel = channel, Data = NoData, Timestamp = UnixMilli now,
            Symbols = symbols, Metadata = None\<rparr> s3)"

definition unsubscribe :: "client_ref \<Rightarrow> string \<Rightarrow> int \<Rightarrow> Server \<Rightarrow> server_error + Server" where
  "unsubscribe c channel now s =
     (let cl = heap s c;
          s1 = s\<lparr>heap := (heap s)(c := cl\<lparr>subscriptions_c := subscriptions_c cl - {channel}\<rparr>)\<rparr>;
          s2 = s1\<lparr>subscriptions := remove_subscriber channel c (subscriptions s1)\<rparr>
      in sendMessage c
           \<lparr>Type = ''unsubscribed'', Channel = channel, Data = NoData, Timestamp = UnixMilli now,
            Symbols = [], Metadata = None\<rparr> s2)"

text \<open>A client frame either fails to decode or is a \<^verbatim>\<open>SubscriptionRequest\<close>.\<close>

datatype client_frame = InvalidJSON | Request SubscriptionRequest

fun handleMessage :: "client_ref \<Rightarrow> client_frame \<Rightarrow> int \<Rightarrow> Server \<Rightarrow> server_error + Server" where
  "handleMessage c InvalidJSON now s = Inr s"
| "handleMessage c (Request req) now s =
     (if req_Type req = ''subscribe'' then subscribe c (req_Channel req) (req_Symbols req) now s
      else if req_Type req = ''unsubscribe'' then unsubscribe c (req_Channel req) now s
      else if req_Type req = ''ping''
        then sendMessage c
               \<lparr>Type = ''pong'', Channel = [], Data = NoData, Timestamp = UnixMilli now, Symbols = [],
                Metadata = None\<rparr> s
      else Inr s)"

subsection \<open>Handlers step by step\<close>

text \<open>
  The same handlers as sequences of steps, for the goroutines: \<open>perform\<close> is one step, run
  at the time \<open>now\<close>, and \<open>handleMessage_steps\<close> gives the steps of the handler of a frame.
  Decoding the frame, computing the key and testing the channel touch no shared state.
\<close>

fun perform :: "action \<Rightarrow> int \<Rightarrow> Server \<Rightarrow> server_error + Server" where
  "perform (AddLocal c key) now s =
     Inr (s\<lparr>heap := (heap s)(c := (heap s c)\<lparr>subscriptions_c :=
                                      insert key (subscriptions_c (heap s c))\<rparr>)\<rparr>)"
| "perform (AddRegistry c key) now s =
     Inr (s\<lparr>subscriptions := add_subscriber key c (subscriptions s)\<rparr>)"
| "perform (AcquireUpstream symbols) now s = Inr (subscribeToPolygon symbols s)"
| "perform (DropLocal c channel) now s =
     Inr (s\<lparr>heap := (heap s)(c := (heap s c)\<lparr>subscriptions_c :=
                                      subscriptions_c (heap s c) - {channel}\<rparr>)\<rparr>)"
| "perform (DropRegistry c channel) now s =
     Inr (s\<lparr>subscriptions := remove_subscriber channel c (subscriptions s)\<rparr>)"
| "perform (Reply c type channel symbols) now s =
     sendMessage c
       \<lparr>Type = type, Channel = channel, Data = NoData, Timestamp = UnixMilli now,
        Symbols = symbols, Metadata = None\<rparr> s"

definition subscribe_steps :: "client_ref \<Rightarrow> string \<Rightarrow> string list \<Rightarrow> action list" where
  "subscribe_steps c channel symbols =
     (let key = subscription_key channel symbols
      in [AddLocal c key, AddRegistry c key] @
         (if length symbols > 0 \<and>
             (channel = ''trades'' \<or> channel = ''quotes'' \<or> channel = ''market-data'')
          then [AcquireUpstream symbols] else []) @
         [Reply c ''subscribed'' channel symbols])"

definition unsubscribe_steps :: "client_ref \<Rightarrow> string \<Rightarrow> action list" where
  "unsubscribe_steps c channel =
     [DropLocal c channel, DropRegistry c channel, Reply c ''unsubscribed'' channel []]"

fun handleMessage_steps :: "client_ref \<Rightarrow> client_frame \<Rightarrow> action list" where
  "handleMessage_steps c InvalidJSON = []"
| "handleMessage_steps c (Request req) =
     (if req_Type req = ''subscribe''
        then subscribe_steps c (req_Channel req) (req_Symbols req)
      else if req_Type req = ''unsubscribe'' then unsubscribe_steps c (req_Channel req)
      else if req_Type req = ''ping'' then [Reply c ''pong'' [] []]
      else [])"

text \<open>The steps of a handler one after the other, nothing in between, all at one time.\<close>

fun run_steps :: "action list \<Rightarrow> int \<Rightarrow> Server \<Rightarrow> server_error + Server" where
  "run_steps [] now s = Inr s"
| "run_steps (a # rest) now s =
     (case perform a now s of Inl e \<Rightarrow> Inl e | Inr s' \<Rightarrow> run_steps rest now s')"

text \<open>
  \<^verbatim>\<open>go c.handleMessage(message)\<close>: a new goroutine with the steps of the handler; a
  handler with no step ends without a trace. \<open>next_action\<close> lets goroutine \<open>i\<close> take its
  next step; a goroutine that has taken its last step is gone.
\<close>

definition spawn :: "action list \<Rightarrow> Server \<Rightarrow> Server" where
  "spawn steps s = (if steps = [] then s else s\<lparr>goroutines := goroutines s @ [steps]\<rparr>)"

definition next_action :: "nat \<Rightarrow> int \<Rightarrow> Server \<Rightarrow> server_error + Server" where
  "next_action i now s =
     (if i < length (goroutines s) then
        (case goroutines s ! i of
           [] \<Rightarrow> Inl NotEnabled
         | a # rest \<Rightarrow>
             perform a now
               (s\<lparr>goroutines :=
                    (if rest = [] then take i (goroutines s) @ drop (Suc i) (goroutines s)
                     else (goroutines s)[i := rest])\<rparr>))
      else Inl NotEnabled)"


subsection \<open>Client lifecycle\<close>

definition registerClient :: "client_ref \<Rightarrow> Server \<Rightarrow> Server" where
  "registerClient c s = s\<lparr>clients := insert c (clients s)\<rparr>"

text \<open>
  \<^verbatim>\<open>handleWebSocket\<close> after a successful upgrade: a new client at a reference \<open>c\<close>. The two
  goroutines it starts are taken to start at once, so the read deadline that \<^verbatim>\<open>readPump\<close>
  sets first of all is 60 seconds after the upgrade.
\<close>

definition handleWebSocket :: "client_ref \<Rightarrow> string \<Rightarrow> int \<Rightarrow> Server \<Rightarrow> Server" where
  "handleWebSocket c ident now s =
     registerClient c
       (s\<lparr>heap := (heap s)(c :=
            \<lparr>conn_open = True, conn_written = [], writer_running = True, send = [], send_closed = False,
             subscriptions_c = {}, client_id = ident, lastSeen = now,
             readDeadline = now + 60 * Second\<rparr>),
          allocated := insert c (allocated s)\<rparr>)"

text \<open>The loop of \<^verbatim>\<open>unregisterClient\<close> removes the client from the entry of every key of
  the client's own subscription set.\<close>

definition remove_from_all ::
  "client_ref \<Rightarrow> string set \<Rightarrow> (string \<rightharpoonup> client_ref set) \<Rightarrow> (string \<rightharpoonup> client_ref set)" where
  "remove_from_all c keys subs =
     (\<lambda>channel. if channel \<in> keys then map_option (\<lambda>cs. cs - {c}) (subs channel)
                else subs channel)"

definition unregisterClient :: "client_ref \<Rightarrow> Server \<Rightarrow> Server" where
  "unregisterClient c s =
     (if c \<in> clients s
      then s\<lparr>clients := clients s - {c},
             heap := (heap s)(c := (heap s c)\<lparr>send_closed := True\<rparr>),
             subscriptions := remove_from_all c (subscriptions_c (heap s c)) (subscriptions s)\<rparr>
      else s)"

text \<open>
  \<^verbatim>\<open>readPump\<close>: each frame read sets \<open>lastSeen\<close> and gets a goroutine of its own for its
  handler; a pong moves the read deadline and sets \<open>lastSeen\<close>, and nothing else moves the
  deadline; a failed read ends the loop and the deferred function unregisters the client
  and closes the connection.
\<close>

definition readPump_read :: "client_ref \<Rightarrow> client_frame \<Rightarrow> int \<Rightarrow> Server \<Rightarrow> Server" where
  "readPump_read c frame now s =
     spawn (handleMessage_steps c frame)
       (s\<lparr>heap := (heap s)(c := (heap s c)\<lparr>lastSeen := now\<rparr>)\<rparr>)"

definition readPump_pong :: "client_ref \<Rightarrow> int \<Rightarrow> Server \<Rightarrow> Server" where
  "readPump_pong c now s =
     s\<lparr>heap := (heap s)(c := (heap s c)\<lparr>readDeadline := now + 60 * Second, lastSeen := now\<rparr>)\<rparr>"

definition readPump_exit :: "client_ref \<Rightarrow> Server \<Rightarrow> Server" where
  "readPump_exit c s =
     (let s1 = unregisterClient c s
      in s1\<lparr>heap := (heap s1)(c := (heap s1 c)\<lparr>conn_open := False\<rparr>)\<rparr>)"

text \<open>
  One round of the loop of \<^verbatim>\<open>writePump\<close>. With messages queued it takes them all and
  writes them to the connection; when the connection is closed the first one is taken,
  the write fails and the goroutine returns. With nothing queued it returns when the
  channel is closed, or when the ping of the ticker fails on a closed connection. Its
  deferred function closes the connection.
\<close>

definition writePump :: "client_ref \<Rightarrow> Server \<Rightarrow> Server" where
  "writePump c s =
     (let cl = heap s c
      in if \<not> writer_running cl then s
         else if send cl = [] then
           (if send_closed cl \<or> \<not> conn_open cl
            then s\<lparr>heap := (heap s)(c := cl\<lparr>writer_running := False, conn_open := False\<rparr>)\<rparr>
            else s)
         else if conn_open cl then
           s\<lparr>heap := (heap s)(c := cl\<lparr>conn_written := conn_written cl @ send cl, send := []\<rparr>)\<rparr>
         else
           s\<lparr>heap := (heap s)(c := cl\<lparr>send := tl (send cl), writer_running := False\<rparr>)\<rparr>)"

subsection \<open>Broadcast\<close>

definition broadcastMessage :: "Message \<Rightarrow> Server \<Rightarrow> Server" where
  "broadcastMessage msg s =
     (if length (broadcast s) < broadcast_capacity then s\<lparr>broadcast := broadcast s @ [msg]\<rparr>
      else s)"

text \<open>
  The body of the loop of \<^verbatim>\<open>handleMessages\<close> for one message: the clients registered
  under exactly the message's channel get a non-blocking send each. The order in which Go
  ranges over them does not matter, since each send touches one client's channel only.
\<close>

definition deliver :: "Message \<Rightarrow> Server \<Rightarrow> server_error + Server" where
  "deliver msg s =
     (case subscriptions s (Channel msg) of
        None \<Rightarrow> Inr s
      | Some subscribedClients \<Rightarrow>
          if \<exists>client \<in> subscribedClients. send_closed (heap s client)
          then Inl SendOnClosedChannel
          else Inr (s\<lparr>heap := (\<lambda>client. if client \<in> subscribedClients
                                         then try_send msg (heap s client)
                                         else heap s client)\<rparr>))"

definition handleMessages :: "Server \<Rightarrow> server_error + Server" where
  "handleMessages s =
     (case broadcast s of
        [] \<Rightarrow> Inr s
      | msg # rest \<Rightarrow> deliver msg (s\<lparr>broadcast := rest\<rparr>))"

text \<open>\<^verbatim>\<open>handlePolygonMessage\<close>: the writes to the cache, the database and Redis leave the
  state modelled here alone.\<close>

definition handlePolygonMessage :: "PolygonMessage \<Rightarrow> int \<Rightarrow> Server \<Rightarrow> Server" where
  "handlePolygonMessage pm now s = broadcastMessage (TransformPolygonMessage pm now) s"

subsection \<open>Background tasks and start-up\<close>

definition cleanup_interval :: int where
  "cleanup_interval = 60 * Second"

definition stale_threshold :: int where
  "stale_threshold = 120 * Second"

text \<open>One tick of \<^verbatim>\<open>cleanupStaleConnections\<close>: the connection of every registered client
  last seen more than the threshold ago is closed.\<close>

definition cleanupStaleConnections :: "int \<Rightarrow> Server \<Rightarrow> Server" where
  "cleanupStaleConnections now s =
     s\<lparr>heap := (\<lambda>client. if client \<in> clients s \<and> now - lastSeen (heap s client) > stale_threshold
                          then (heap s client)\<lparr>conn_open := False\<rparr>
                          else heap s client)\<rparr>"

definition defaultSymbols :: "string list" where
  "defaultSymbols = [''SPY'', ''QQQ'', ''DIA'', ''AAPL'', ''TSLA'', ''NVDA'']"

definition initPolygon :: "string \<Rightarrow> bool \<Rightarrow> upstream_frame list \<Rightarrow> Server \<Rightarrow> Server" where
  "initPolygon key dial_ok inbound s =
     (if key = [] then s
      else
        (case Connect dial_ok inbound (NewPolygonClient key) of
           (Some e, pc) \<Rightarrow> s\<lparr>polygonClient := None\<rparr>
         | (None, pc) \<Rightarrow> s\<lparr>polygonClient := Some (snd (Subscribe defaultSymbols pc))\<rparr>))"

definition new_client :: Client where
  "new_client =
     \<lparr>conn_open = False, conn_written = [], writer_running = False, send = [], send_closed = False,
      subscriptions_c = {}, client_id = [], lastSeen = 0, readDeadline = 0\<rparr>"

text \<open>The package-level variables as initialised.\<close>

definition initial :: Server where
  "initial =
     \<lparr>heap = (\<lambda>c. new_client), allocated = {}, clients = {}, broadcast = [],
      subscriptions = Map.empty, polygonSymbols = Map.empty, polygonClient = None,
      goroutines = [], clock = 0\<rparr>"

subsection \<open>Runs\<close>

text \<open>
  The server as a sequence of steps. A step that reads the clock carries the time: time
  does not go back, and it does not pass the read deadline of a registered client, since
  at the deadline the pending read of \<^verbatim>\<open>readPump\<close> fails and \<^verbatim>\<open>readPump\<close> ends (\<open>ClientGone\<close>).
\<close>

definition enabled :: "int \<Rightarrow> Server \<Rightarrow> bool" where
  "enabled now s = (clock s \<le> now \<and> (\<forall>c \<in> clients s. now \<le> readDeadline (heap s c)))"

definition timed ::
  "int \<Rightarrow> (Server \<Rightarrow> server_error + Server) \<Rightarrow> Server \<Rightarrow> server_error + Server" where
  "timed now f s = (if enabled now s then f (s\<lparr>clock := now\<rparr>) else Inl NotEnabled)"

text \<open>\<^verbatim>\<open>readPump\<close> of client \<open>c\<close> is in its loop and its connection is open.\<close>

definition reading :: "client_ref \<Rightarrow> Server \<Rightarrow> bool" where
  "reading c s = (c \<in> clients s \<and> conn_open (heap s c))"

definition read_frame ::
  "client_ref \<Rightarrow> client_frame \<Rightarrow> int \<Rightarrow> Server \<Rightarrow> server_error + Server" where
  "read_frame c frame now s =
     timed now (\<lambda>s. if reading c s then Inr (readPump_read c frame now s) else Inl NotEnabled) s"

definition handler_step :: "nat \<Rightarrow> int \<Rightarrow> Server \<Rightarrow> server_error + Server" where
  "handler_step i now s = timed now (next_action i now) s"

text \<open>Goroutine \<open>i\<close> takes \<open>n\<close> steps in a row.\<close>

fun handler_steps :: "nat \<Rightarrow> nat \<Rightarrow> int \<Rightarrow> Server \<Rightarrow> server_error + Server" where
  "handler_steps 0 i now s = Inr s"
| "handler_steps (Suc n) i now s =
     (case handler_step i now s of Inl e \<Rightarrow> Inl e | Inr s' \<Rightarrow> handler_steps n i now s')"

text \<open>
  The steps: \<open>Accept\<close> is an upgrade, at a reference not in use. \<open>ReadFrame\<close> is a frame
  read by \<^verbatim>\<open>readPump\<close>, which starts the goroutine of its handler, and \<open>Handler i\<close> is the
  next step of goroutine \<open>i\<close>; the goroutines take their steps in any order. \<open>ClientFrame\<close>
  is the schedule in which the frame is read and its handler runs to its end before
  anything else happens. \<open>ClientPong\<close> is a pong read, \<open>ClientGone\<close> the end of \<^verbatim>\<open>readPump\<close>
  on a failed read, whatever made it fail. \<open>WritePump\<close> is one round of \<^verbatim>\<open>writePump\<close>,
  \<open>UpstreamData\<close> a data record handed to \<^verbatim>\<open>handlePolygonMessage\<close>, \<open>Publish\<close> a direct
  \<^verbatim>\<open>broadcastMessage\<close> (the Redis subscriber), \<open>Dispatch\<close> one round of \<^verbatim>\<open>handleMessages\<close>,
  and \<open>CleanupTick\<close> a tick of the ticker of \<^verbatim>\<open>cleanupStaleConnections\<close>, every
  \<open>cleanup_interval\<close>. The deferred function of \<^verbatim>\<open>readPump\<close> and a round of
  \<^verbatim>\<open>handleMessages\<close> are each taken in one piece: \<^verbatim>\<open>subscriptionsLock\<close> keeps them apart,
  but for \<^verbatim>\<open>close(client.send)\<close>, which in the middle of a round can only make the round
  panic.
\<close>

datatype server_op =
    Accept client_ref string int
  | ReadFrame client_ref client_frame int
  | Handler nat int
  | ClientFrame client_ref client_frame int
  | ClientPong client_ref int
  | ClientGone client_ref
  | WritePump client_ref
  | UpstreamData PolygonMessage int
  | Publish Message
  | Dispatch
  | CleanupTick int

fun step :: "server_op \<Rightarrow> Server \<Rightarrow> server_error + Server" where
  "step (Accept c ident now) s =
     timed now (\<lambda>s. if c \<in> allocated s then Inl NotEnabled
                     else Inr (handleWebSocket c ident now s)) s"
| "step (ReadFrame c frame now) s = read_frame c frame now s"
| "step (Handler i now) s = handler_step i now s"
| "step (ClientFrame c frame now) s =
     (case read_frame c frame now s of
        Inl e \<Rightarrow> Inl e
      | Inr s' \<Rightarrow>
          handler_steps (length (handleMessage_steps c frame)) (length (goroutines s)) now s')"
| "step (ClientPong c now) s =
     timed now (\<lambda>s. if reading c s then Inr (readPump_pong c now s) else Inl NotEnabled) s"
| "step (ClientGone c) s = (if c \<in> clients s then Inr (readPump_exit c s) else Inl NotEnabled)"
| "step (WritePump c) s = Inr (writePump c s)"
| "step (UpstreamData pm now) s = timed now (\<lambda>s. Inr (handlePolygonMessage pm now s)) s"
| "step (Publish msg) s = Inr (broadcastMessage msg s)"
| "step Dispatch s = handleMessages s"
| "step (CleanupTick now) s =
     (if 0 < now \<and> now mod cleanup_interval = 0
      then timed now (\<lambda>s. Inr (cleanupStaleConnections now s)) s
      else Inl NotEnabled)"

fun run :: "server_op list \<Rightarrow> Server \<Rightarrow> server_error + Server" where
  "run [] s = Inr s"
| "run (op # ops) s = (case step op s of Inl e \<Rightarrow> Inl e | Inr s' \<Rightarrow> run ops s')"


section \<open>Notions used in the statements\<close>

text \<open>The clients registered under a key, the empty set for a missing entry.\<close>

definition subscribers :: "Server \<Rightarrow> string \<Rightarrow> client_ref set" where
  "subscribers s k = (case subscriptions s k of None \<Rightarrow> {} | Some cs \<Rightarrow> cs)"

text \<open>The guard of \<^verbatim>\<open>subscribeToPolygon\<close>: the upstream client exists and is connected and
  authenticated.\<close>

definition upstream_ready :: "Server \<Rightarrow> bool" where
  "upstream_ready s = (case polygonClient s of None \<Rightarrow> False | Some pc \<Rightarrow> IsConnected pc)"

text \<open>The frames written upstream so far, none without an upstream client.\<close>

definition upstream_written :: "Server \<Rightarrow> PolygonSubscribeMessage list" where
  "upstream_written s = (case polygonClient s of None \<Rightarrow> [] | Some pc \<Rightarrow> written pc)"

text \<open>The unsubscribe frames among the frames written upstream.\<close>

definition unsubscribe_frames :: "Server \<Rightarrow> PolygonSubscribeMessage list" where
  "unsubscribe_frames s = filter (\<lambda>f. Action f = ''unsubscribe'') (upstream_written s)"

text \<open>The symbol \<open>x\<close> has a reference count, and it is at least \<open>n\<close>.\<close>

definition count_at_least :: "Server \<Rightarrow> string \<Rightarrow> int \<Rightarrow> bool" where
  "count_at_least s x n = (case polygonSymbols s x of None \<Rightarrow> False | Some m \<Rightarrow> n \<le> m)"



text \<open>Example values: the server after start-up with a feed that accepts the key, the
  trade of the first scenario, and a subscribe and an unsubscribe frame.\<close>

definition ready :: Server where
  "ready = initPolygon ''key'' True [Batch [StatusRecord ''auth_success'' ''authenticated'']] initial"

definition aapl_trade :: PolygonMessage where
  "aapl_trade =
     \<lparr>EventType = ''T'', Symbol = ''AAPL'', Price = 150.25, Size = 100, Exchange = 4,
      Timestamp_pm = 1700000000000, Conditions = [], BidPrice = 0, BidSize = 0, AskPrice = 0,
      AskSize = 0, Open = 0, High = 0, Low = 0, Close = 0, Volume = 0, VWAP = 0\<rparr>"

definition subscribe_frame :: "string \<Rightarrow> string list \<Rightarrow> client_frame" where
  "subscribe_frame channel symbols =
     Request \<lparr>req_Type = ''subscribe'', req_Channel = channel, req_Symbols = symbols\<rparr>"

definition unsubscribe_frame :: "string \<Rightarrow> string list \<Rightarrow> client_frame" where
  "unsubscribe_frame channel symbols =
     Request \<lparr>req_Type = ''unsubscribe'', req_Channel = channel, req_Symbols = symbols\<rparr>"



section \<open>Properties of the upstream client\<close>

lemmas upstream_defs =
  NewPolygonClient_def Second_def scheduleReconnect_def Connect_def authenticate_def
  WriteMessage_def handleStatusMessage_def handleDataMessage_def readMessages_exit_def
  IsConnected_def Subscribe_def Unsubscribe_def

lemmas server_defs =
  ready_def initial_def new_client_def initPolygon_def defaultSymbols_def
  handleWebSocket_def registerClient_def unregisterClient_def remove_from_all_def
  readPump_read_def readPump_pong_def readPump_exit_def writePump_def
  subscribe_steps_def unsubscribe_steps_def spawn_def next_action_def
  enabled_def timed_def reading_def read_frame_def handler_step_def cleanup_interval_def
  subscribe_def unsubscribe_def subscription_key_def add_subscriber_def remove_subscriber_def
  sendMessage_def try_send_def send_capacity_def broadcast_capacity_def
  subscribeToPolygon_def unsubscribeFromPolygon_def
  broadcastMessage_def deliver_def handleMessages_def handlePolygonMessage_def
  TransformPolygonMessage_def cleanupStaleConnections_def stale_threshold_def
  subscribe_frame_def unsubscribe_frame_def aapl_trade_def
  upstream_written_def upstream_ready_def subscribers_def UnixMilli_def

subsection \<open>Subscribe\<close>

lemma subscribe_loop_closed:
  "subscribe_loop symbols (params, subs) =
     (params @ concat (map (\<lambda>x. [''T.'' @ x, ''Q.'' @ x, ''A.'' @ x]) symbols),
      subs \<union> set symbols)"
  by (induction symbols arbitrary: params subs) auto

text \<open>
  Claim C8. \<^verbatim>\<open>Subscribe\<close> on a client that is connected and authenticated hands exactly
  one frame to the transport, with action \<open>subscribe\<close> and with params the comma-joined
  tokens \<open>T.SYM\<close>, \<open>Q.SYM\<close>, \<open>A.SYM\<close> of each symbol in the order of the list, and it adds
  every listed symbol to the subscribed symbols; the result is an error only when the
  transport refuses the write. On a client that is not both connected and authenticated
  it returns an error, writes nothing and changes nothing.
\<close>

theorem Subscribe_frame:
  "Subscribe symbols pc =
     (if connected pc \<and> authenticated pc
      then (if ws_up pc then None else Some WriteFailed,
            pc\<lparr>subscriptions_pc := subscriptions_pc pc \<union> set symbols,
               written := written pc @
                 [\<lparr>Action = ''subscribe'',
                   Params = Join (concat (map (\<lambda>x. [''T.'' @ x, ''Q.'' @ x, ''A.'' @ x])
                                            symbols)) '',''\<rparr>]\<rparr>)
      else (Some NotConnectedOrAuthenticated, pc))"
  by (simp add: Subscribe_def subscribe_loop_closed WriteMessage_def)

theorem Subscribe_frame_witness:
  "Subscribe [''AAPL'', ''TSLA'']
     ((NewPolygonClient ''key'')\<lparr>ws_up := True, connected := True, authenticated := True\<rparr>) =
   (None,
    (NewPolygonClient ''key'')
      \<lparr>ws_up := True, connected := True, authenticated := True,
       subscriptions_pc := {''AAPL'', ''TSLA''},
       written := [\<lparr>Action = ''subscribe'',
                    Params = ''T.AAPL,Q.AAPL,A.AAPL,T.TSLA,Q.TSLA,A.TSLA''\<rparr>]\<rparr>)"
  using Subscribe_frame [of "[''AAPL'', ''TSLA'']"
      "(NewPolygonClient ''key'')\<lparr>ws_up := True, connected := True, authenticated := True\<rparr>"]
  by (simp add: NewPolygonClient_def insert_commute)

subsection \<open>Reconnect\<close>

lemma authenticate_ws_up:
  "ws_up pc \<Longrightarrow> authenticate inbound pc =
     (let pc2 = fold handleMessage_pc inbound
                  (pc\<lparr>written := written pc @ [\<lparr>Action = ''auth'', Params = apiKey pc\<rparr>]\<rparr>)
      in if \<not> authenticated pc2 then (Some AuthenticationFailed, pc2) else (None, pc2))"
  by (simp add: authenticate_def WriteMessage_def)

lemma handleRecord_frame [simp]:
  "retryCount (handleRecord r pc) = retryCount pc"
  "maxRetries (handleRecord r pc) = maxRetries pc"
  "reconnectDelay (handleRecord r pc) = reconnectDelay pc"
  "reconnectTimer (handleRecord r pc) = reconnectTimer pc"
  by (cases r; simp add: handleStatusMessage_def handleDataMessage_def)+

lemma fold_handleRecord_frame [simp]:
  "retryCount (fold handleRecord rs pc) = retryCount pc"
  "maxRetries (fold handleRecord rs pc) = maxRetries pc"
  "reconnectDelay (fold handleRecord rs pc) = reconnectDelay pc"
  "reconnectTimer (fold handleRecord rs pc) = reconnectTimer pc"
  by (induction rs arbitrary: pc; simp)+

lemma handleMessage_pc_frame [simp]:
  "retryCount (handleMessage_pc f pc) = retryCount pc"
  "maxRetries (handleMessage_pc f pc) = maxRetries pc"
  "reconnectDelay (handleMessage_pc f pc) = reconnectDelay pc"
  "reconnectTimer (handleMessage_pc f pc) = reconnectTimer pc"
  by (cases f; simp)+

lemma fold_handleMessage_pc_frame [simp]:
  "retryCount (fold handleMessage_pc fs pc) = retryCount pc"
  "maxRetries (fold handleMessage_pc fs pc) = maxRetries pc"
  "reconnectDelay (fold handleMessage_pc fs pc) = reconnectDelay pc"
  "reconnectTimer (fold handleMessage_pc fs pc) = reconnectTimer pc"
  by (induction fs arbitrary: pc; simp)+

lemma handleMessage_pc_reader [simp]:
  "reader_running (handleMessage_pc f pc) = reader_running pc"
proof -
  have r: "reader_running (handleRecord r p) = reader_running p" for r p
    by (cases r) (simp_all add: handleStatusMessage_def handleDataMessage_def)
  have "reader_running (fold handleRecord rs p) = reader_running p" for rs p
    by (induction rs arbitrary: p) (simp_all add: r)
  then show ?thesis by (cases f) simp_all
qed

lemma fold_handleMessage_pc_reader [simp]:
  "reader_running (fold handleMessage_pc fs pc) = reader_running pc"
  by (induction fs arbitrary: pc) simp_all













subsection \<open>Authentication failure\<close>

text \<open>
  After a successful dial \<^verbatim>\<open>Connect\<close> fails exactly when the client is not authenticated
  at the end of the wait. The connection is then closed and the client is neither
  connected nor authenticated, and with \<open>maxRetries\<close> above zero the reader's exit has
  scheduled a reconnect after \<open>reconnectDelay\<close>, as attempt 1. A failed dial schedules
  nothing.
\<close>

lemma Connect_dialled:
  "Connect True inbound pc =
     (let pc2 = fold handleMessage_pc inbound
                  (pc\<lparr>ws_up := True, connected := True, retryCount := 0,
                      reader_running := True,
                      written := written pc @ [\<lparr>Action = ''auth'', Params = apiKey pc\<rparr>]\<rparr>)
      in if authenticated pc2 then (None, pc2)
         else (Some AuthenticationFailed, readMessages_exit (pc2\<lparr>ws_up := False\<rparr>)))"
  by (simp add: Connect_def authenticate_ws_up Let_def)

lemma Connect_error_reschedules:
  assumes "fst (Connect True inbound pc) = Some e" and "0 < maxRetries pc"
  shows "reconnectTimer (snd (Connect True inbound pc)) = Some (reconnectDelay pc)
       \<and> retryCount (snd (Connect True inbound pc)) = 1
       \<and> \<not> connected (snd (Connect True inbound pc))
       \<and> \<not> authenticated (snd (Connect True inbound pc))
       \<and> \<not> ws_up (snd (Connect True inbound pc))"
  using assms
  by (simp add: Connect_def authenticate_ws_up Let_def readMessages_exit_def
      scheduleReconnect_def split: if_splits)

lemma Connect_timeout_reschedules:
  "fst (Connect True [] (NewPolygonClient ''key'')) = Some AuthenticationFailed
   \<and> reconnectTimer (snd (Connect True [] (NewPolygonClient ''key''))) = Some (5 * Second)
   \<and> retryCount (snd (Connect True [] (NewPolygonClient ''key''))) = 1"
proof -
  have h1: "fst (Connect True [] (NewPolygonClient ''key'')) = Some AuthenticationFailed"
    by (simp add: Connect_def authenticate_def WriteMessage_def NewPolygonClient_def)
  have h2: "0 < maxRetries (NewPolygonClient ''key'')"
    by (simp add: NewPolygonClient_def)
  show ?thesis
    using h1 h2 Connect_error_reschedules [OF h1 h2]
    by (simp add: NewPolygonClient_def)
qed

lemma Connect_dial_failure_schedules_nothing:
  "reconnectTimer (snd (Connect False inbound pc)) = reconnectTimer pc"
  by (simp add: Connect_def)

text \<open>
  Claim C6, on the code. The feed answers the credential frame with \<open>auth_failed\<close>:
  \<^verbatim>\<open>Connect\<close> returns an error, and afterwards a reconnect is pending, due in 5 seconds;
  when that timer fires and the feed then answers \<open>auth_success\<close>, the client is connected
  and authenticated again. The session is not terminal.
\<close>

theorem auth_failure_reschedules_reconnect:
  "fst (Connect True [Batch [StatusRecord ''auth_failed'' ''invalid key'']]
          (NewPolygonClient ''key'')) = Some AuthenticationFailed
   \<and> reconnectTimer (snd (Connect True [Batch [StatusRecord ''auth_failed'' ''invalid key'']]
                            (NewPolygonClient ''key''))) = Some (5 * Second)
   \<and> IsConnected (reconnect_fire True [Batch [StatusRecord ''auth_success'' ''authenticated'']] []
        (snd (Connect True [Batch [StatusRecord ''auth_failed'' ''invalid key'']]
                (NewPolygonClient ''key''))))"
  by (simp add: NewPolygonClient_def Second_def scheduleReconnect_def Connect_def
      authenticate_def WriteMessage_def handleStatusMessage_def readMessages_exit_def
      reconnect_fire_def IsConnected_def)

section \<open>Properties of the fan-out server\<close>

subsection \<open>Handlers as goroutines\<close>

text \<open>
  The steps of a handler, taken one after the other, are the handler as the source
  writes it; and \<open>ClientFrame\<close> is the run in which the frame is read and the goroutine of
  its handler takes all its steps at once.
\<close>

lemma run_steps_last: "(case r of Inl e \<Rightarrow> Inl e | Inr x \<Rightarrow> run_steps [] now x) = r"
  by (cases r) simp_all

lemma handler_steps_last: "(case r of Inl e \<Rightarrow> Inl e | Inr x \<Rightarrow> handler_steps 0 i now x) = r"
  by (cases r) simp_all

lemma run_steps_handleMessage:
  "run_steps (handleMessage_steps c frame) now s = handleMessage c frame now s"
proof (cases frame)
  case InvalidJSON
  then show ?thesis by simp
next
  case (Request req)
  define G where "G = (length (req_Symbols req) > 0 \<and>
      (req_Channel req = ''trades'' \<or> req_Channel req = ''quotes'' \<or>
       req_Channel req = ''market-data''))"
  have sub: "run_steps (subscribe_steps c (req_Channel req) (req_Symbols req)) now s =
      subscribe c (req_Channel req) (req_Symbols req) now s"
    unfolding subscribe_steps_def subscribe_def Let_def G_def [symmetric]
    by (cases G) (simp_all add: run_steps_last)
  have unsub: "run_steps (unsubscribe_steps c (req_Channel req)) now s =
      unsubscribe c (req_Channel req) now s"
    by (simp add: unsubscribe_steps_def unsubscribe_def Let_def run_steps_last)
  from Request sub unsub show ?thesis
    by (simp add: run_steps_last)
qed

lemma subscribeToPolygon_goroutines:
  "subscribeToPolygon symbols (s\<lparr>goroutines := g\<rparr>) =
     (subscribeToPolygon symbols s)\<lparr>goroutines := g\<rparr>"
  by (simp add: subscribeToPolygon_def split: option.splits prod.splits)

lemma perform_goroutines:
  "perform a now (s\<lparr>goroutines := g\<rparr>) =
     (case perform a now s of Inl e \<Rightarrow> Inl e | Inr s' \<Rightarrow> Inr (s'\<lparr>goroutines := g\<rparr>))"
  by (cases a) (simp_all add: subscribeToPolygon_goroutines sendMessage_def)

lemma subscribeToPolygon_keeps:
  "clock (subscribeToPolygon symbols s) = clock s"
  "clients (subscribeToPolygon symbols s) = clients s"
  "goroutines (subscribeToPolygon symbols s) = goroutines s"
  "heap (subscribeToPolygon symbols s) = heap s"
  "allocated (subscribeToPolygon symbols s) = allocated s"
  by (simp_all add: subscribeToPolygon_def split: option.splits prod.splits)

lemma perform_keeps:
  assumes "perform a now s = Inr s'"
  shows "clock s' = clock s" and "clients s' = clients s" and "goroutines s' = goroutines s"
    and "readDeadline (heap s' c) = readDeadline (heap s c)"
    and "lastSeen (heap s' c) = lastSeen (heap s c)"
    and "conn_open (heap s' c) = conn_open (heap s c)"
  using assms
  by (cases a; auto simp: subscribeToPolygon_keeps sendMessage_def try_send_def
      split: if_splits)+

lemma perform_enabled:
  "perform a now s = Inr s' \<Longrightarrow> enabled t s' = enabled t s"
  by (simp add: enabled_def perform_keeps)

lemma handler_step_head:
  assumes "enabled now s" and "clock s = now" and "goroutines s = gs @ [a # rest]"
  shows "handler_step (length gs) now s =
           perform a now (s\<lparr>goroutines := (if rest = [] then gs else gs @ [rest])\<rparr>)"
proof -
  from assms(2) have same: "s\<lparr>clock := now\<rparr> = s" by simp
  from assms(1) have "handler_step (length gs) now s = next_action (length gs) now (s\<lparr>clock := now\<rparr>)"
    by (simp add: handler_step_def timed_def)
  also from same have "\<dots> = next_action (length gs) now s" by simp
  also from assms(3) have "\<dots> =
      perform a now (s\<lparr>goroutines := (if rest = [] then gs else gs @ [rest])\<rparr>)"
    by (simp add: next_action_def)
  finally show ?thesis .
qed

lemma handler_steps_spawned:
  assumes "enabled now s" and "clock s = now" and "goroutines s = gs @ [steps]"
    and "steps \<noteq> []"
  shows "handler_steps (length steps) (length gs) now s =
           run_steps steps now (s\<lparr>goroutines := gs\<rparr>)"
  using assms
proof (induction steps arbitrary: s)
  case Nil
  then show ?case by simp
next
  case (Cons a rest)
  note first = handler_step_head [OF Cons.prems(1) Cons.prems(2) Cons.prems(3)]
  show ?case
  proof (cases "rest = []")
    case True
    with first show ?thesis
      by (simp add: run_steps_last handler_steps_last)
  next
    case False
    show ?thesis
    proof (cases "perform a now s")
      case (Inl e)
      with first False show ?thesis by (simp add: perform_goroutines)
    next
      case (Inr s1)
      let ?s1 = "s1\<lparr>goroutines := gs @ [rest]\<rparr>"
      from Inr first False have f: "handler_step (length gs) now s = Inr ?s1"
        by (simp add: perform_goroutines)
      have e: "enabled now ?s1"
        using perform_enabled [OF Inr, of now] Cons.prems(1) by (simp add: enabled_def)
      have c: "clock ?s1 = now"
        using perform_keeps(1) [OF Inr] Cons.prems(2) by simp
      have g: "goroutines ?s1 = gs @ [rest]" by simp
      from Cons.IH [OF e c g False] have
        "handler_steps (length rest) (length gs) now ?s1 = run_steps rest now (s1\<lparr>goroutines := gs\<rparr>)"
        by simp
      with f Inr show ?thesis by (simp add: perform_goroutines)
    qed
  qed
qed

lemma ClientFrame_handleMessage:
  "step (ClientFrame c frame now) s =
     timed now (\<lambda>s. if reading c s
                     then handleMessage c frame now
                            (s\<lparr>heap := (heap s)(c := (heap s c)\<lparr>lastSeen := now\<rparr>)\<rparr>)
                     else Inl NotEnabled) s"
proof (cases "enabled now s \<and> reading c s")
  case False
  then show ?thesis
    by (auto simp: read_frame_def timed_def reading_def)
next
  case True
  let ?s1 = "s\<lparr>clock := now, heap := (heap s)(c := (heap s c)\<lparr>lastSeen := now\<rparr>)\<rparr>"
  show ?thesis
  proof (cases "handleMessage_steps c frame = []")
    case e: True
    with run_steps_handleMessage [of c frame now ?s1]
    have "handleMessage c frame now ?s1 = Inr ?s1" by simp
    with True e show ?thesis
      by (simp add: read_frame_def timed_def reading_def readPump_read_def spawn_def)
  next
    case ne: False
    let ?s2 = "?s1\<lparr>goroutines := goroutines s @ [handleMessage_steps c frame]\<rparr>"
    from True ne have r: "read_frame c frame now s = Inr ?s2"
      by (simp add: read_frame_def timed_def reading_def readPump_read_def spawn_def)
    have en: "enabled now ?s2"
      using True by (simp add: enabled_def)
    from handler_steps_spawned [OF en _ _ ne, of "goroutines s"]
    have "handler_steps (length (handleMessage_steps c frame)) (length (goroutines s)) now ?s2 =
        run_steps (handleMessage_steps c frame) now (?s2\<lparr>goroutines := goroutines s\<rparr>)"
      by simp
    moreover have "?s2\<lparr>goroutines := goroutines s\<rparr> = ?s1" by simp
    ultimately show ?thesis
      using r True by (simp add: run_steps_handleMessage timed_def reading_def)
  qed
qed

lemma handler_steps_run:
  "handler_steps n i now s = run (replicate n (Handler i now)) s"
  by (induction n arbitrary: s) (simp_all split: sum.splits)

lemma ClientFrame_schedule:
  "step (ClientFrame c frame now) s =
     run (ReadFrame c frame now #
          replicate (length (handleMessage_steps c frame)) (Handler (length (goroutines s)) now)) s"
  by (simp add: handler_steps_run split: sum.splits)


subsection \<open>A full queue\<close>

lemma sendMessage_subscriptions:
  "sendMessage c msg s = Inr s' \<Longrightarrow> subscriptions s' = subscriptions s"
  by (auto simp: sendMessage_def split: if_splits)

lemma subscribeToPolygon_subscriptions [simp]:
  "subscriptions (subscribeToPolygon symbols s) = subscriptions s"
  by (simp add: subscribeToPolygon_def split: option.splits prod.splits)

lemma subscribe_subscriptions:
  "subscribe c channel symbols now s = Inr s' \<Longrightarrow>
   subscriptions s' = add_subscriber (subscription_key channel symbols) c (subscriptions s)"
  by (auto simp: subscribe_def Let_def dest!: sendMessage_subscriptions split: if_splits)


lemma deliver_subscribers:
  "deliver msg s =
     (if \<exists>c' \<in> subscribers s (Channel msg). send_closed (heap s c') then Inl SendOnClosedChannel
      else Inr (s\<lparr>heap := (\<lambda>c'. if c' \<in> subscribers s (Channel msg)
                                   then try_send msg (heap s c') else heap s c')\<rparr>))"
  by (cases "subscriptions s (Channel msg)") (simp_all add: deliver_def subscribers_def)





subsection \<open>The key of a subscribe with symbols\<close>

lemma subscribe_count_loop_counts:
  "fst (subscribe_count_loop symbols (m, new)) x =
     (if x \<in> set symbols
      then Some ((case m x of None \<Rightarrow> 0 | Some n \<Rightarrow> n) + int (count_list symbols x))
      else m x)"
  by (induction symbols arbitrary: m new) (auto split: option.splits)

lemma sendMessage_frame:
  assumes "sendMessage c msg s = Inr s'"
  shows "subscriptions_c (heap s' c') = subscriptions_c (heap s c')"
    and "polygonSymbols s' = polygonSymbols s"
    and "polygonClient s' = polygonClient s"
    and "clients s' = clients s"
  using assms by (auto simp: sendMessage_def try_send_def split: if_splits)

lemma subscribeToPolygon_heap [simp]: "heap (subscribeToPolygon symbols s) = heap s"
  by (simp add: subscribeToPolygon_def split: option.splits prod.splits)

lemma subscribeToPolygon_counts:
  "polygonSymbols (subscribeToPolygon symbols s) x =
     (if upstream_ready s \<and> x \<in> set symbols
      then Some ((case polygonSymbols s x of None \<Rightarrow> 0 | Some n \<Rightarrow> n) + int (count_list symbols x))
      else polygonSymbols s x)"
proof (cases "upstream_ready s")
  case False
  then show ?thesis
    by (auto simp: subscribeToPolygon_def upstream_ready_def split: option.splits)
next
  case True
  then obtain pc where pc: "polygonClient s = Some pc" "IsConnected pc"
    by (auto simp: upstream_ready_def split: option.splits)
  obtain m new where l: "subscribe_count_loop symbols (polygonSymbols s, []) = (m, new)"
    by (cases "subscribe_count_loop symbols (polygonSymbols s, [])")
  from subscribe_count_loop_counts [of symbols "polygonSymbols s" "[]" x] l
  have "m x = (if x \<in> set symbols
      then Some ((case polygonSymbols s x of None \<Rightarrow> 0 | Some n \<Rightarrow> n) + int (count_list symbols x))
      else polygonSymbols s x)" by simp
  with True pc l show ?thesis by (simp add: subscribeToPolygon_def)
qed

text \<open>
  Claim C10, as the code has it. A subscribe with at least one symbol enters one key for
  the client, the channel, a colon and the first symbol, in the client's own set and in
  the registry; no other registry entry changes. When the channel is \<open>trades\<close>, \<open>quotes\<close> or
  \<open>market-data\<close> and the upstream client is connected and authenticated, the reference
  count of every listed symbol rises by the number of times the list names it (a missing
  count is 0); for any other channel, or without a ready upstream client, no count
  changes.
\<close>

theorem subscribe_registers_first_symbol_only:
  assumes "subscribe c channel (first # rest) now s = Inr s'"
  shows "subscriptions_c (heap s' c) = insert (channel @ '':'' @ first) (subscriptions_c (heap s c))
       \<and> (\<forall>k. subscriptions s' k =
                (if k = channel @ '':'' @ first then Some (insert c (subscribers s k))
                 else subscriptions s k))
       \<and> (\<forall>x. polygonSymbols s' x =
                (if (channel = ''trades'' \<or> channel = ''quotes'' \<or> channel = ''market-data'')
                    \<and> upstream_ready s \<and> x \<in> set (first # rest)
                 then Some ((case polygonSymbols s x of None \<Rightarrow> 0 | Some n \<Rightarrow> n)
                            + int (count_list (first # rest) x))
                 else polygonSymbols s x))"
proof -
  have key: "subscription_key channel (first # rest) = channel @ '':'' @ first"
    by (simp add: subscription_key_def)
  from subscribe_subscriptions [OF assms] key
  have b: "\<forall>k. subscriptions s' k =
                (if k = channel @ '':'' @ first then Some (insert c (subscribers s k))
                 else subscriptions s k)"
    by (simp add: add_subscriber_def subscribers_def)
  define G where "G = (channel = ''trades'' \<or> channel = ''quotes'' \<or> channel = ''market-data'')"
  define s2 where "s2 = s\<lparr>heap := (heap s)(c := (heap s c)\<lparr>subscriptions_c :=
                  insert (channel @ '':'' @ first) (subscriptions_c (heap s c))\<rparr>),
               subscriptions := add_subscriber (channel @ '':'' @ first) c (subscriptions s)\<rparr>"
  define s3 where "s3 = (if G then subscribeToPolygon (first # rest) s2 else s2)"
  have "subscribe c channel (first # rest) now s = sendMessage c
           \<lparr>Type = ''subscribed'', Channel = channel, Data = NoData, Timestamp = UnixMilli now,
            Symbols = first # rest, Metadata = None\<rparr> s3"
    unfolding s3_def s2_def G_def by (simp add: subscribe_def Let_def key)
  with assms have send: "sendMessage c
           \<lparr>Type = ''subscribed'', Channel = channel, Data = NoData, Timestamp = UnixMilli now,
            Symbols = first # rest, Metadata = None\<rparr> s3 = Inr s'"
    by simp
  have r: "upstream_ready s2 = upstream_ready s" "polygonSymbols s2 = polygonSymbols s"
    "subscriptions_c (heap s2 c) = insert (channel @ '':'' @ first) (subscriptions_c (heap s c))"
    by (simp_all add: upstream_ready_def s2_def)
  have h3: "heap s3 = heap s2"
    by (simp add: s3_def)
  from sendMessage_frame(1) [OF send, of c] h3 r(3)
  have a: "subscriptions_c (heap s' c) =
      insert (channel @ '':'' @ first) (subscriptions_c (heap s c))"
    by simp
  have p3: "polygonSymbols s3 x =
                (if G \<and> upstream_ready s \<and> x \<in> set (first # rest)
                 then Some ((case polygonSymbols s x of None \<Rightarrow> 0 | Some n \<Rightarrow> n)
                            + int (count_list (first # rest) x))
                 else polygonSymbols s x)" for x
    unfolding s3_def using r(1,2) by (simp add: subscribeToPolygon_counts del: count_list.simps set_simps)
  from sendMessage_frame(2) [OF send] p3
  have c: "\<forall>x. polygonSymbols s' x =
                (if (channel = ''trades'' \<or> channel = ''quotes'' \<or> channel = ''market-data'')
                    \<and> upstream_ready s \<and> x \<in> set (first # rest)
                 then Some ((case polygonSymbols s x of None \<Rightarrow> 0 | Some n \<Rightarrow> n)
                            + int (count_list (first # rest) x))
                 else polygonSymbols s x)"
    unfolding G_def by simp
  from a b c show ?thesis by blast
qed

theorem subscribe_registers_first_symbol_only_witness:
  "\<exists>s'. subscribe 1 ''trades'' [''MSFT'', ''IBM''] 1 (handleWebSocket 1 ''a'' 0 ready) = Inr s'
        \<and> subscriptions_c (heap s' 1) = {''trades:MSFT''}
        \<and> subscriptions s' ''trades:MSFT'' = Some {1}
        \<and> subscriptions s' ''trades:IBM'' = None
        \<and> subscriptions s' ''trades'' = None
        \<and> polygonSymbols s' ''MSFT'' = Some 1
        \<and> polygonSymbols s' ''IBM'' = Some 1"
proof -
  have "\<exists>s'. subscribe 1 ''trades'' [''MSFT'', ''IBM''] 1 (handleWebSocket 1 ''a'' 0 ready) = Inr s'"
    by (simp add: server_defs upstream_defs Let_def)
  then obtain s' where
    h: "subscribe 1 ''trades'' [''MSFT'', ''IBM''] 1 (handleWebSocket 1 ''a'' 0 ready) = Inr s'"
    by blast
  have r: "upstream_ready (handleWebSocket 1 ''a'' 0 ready)"
    "polygonSymbols (handleWebSocket 1 ''a'' 0 ready) = Map.empty"
    "subscriptions (handleWebSocket 1 ''a'' 0 ready) = Map.empty"
    "subscriptions_c (heap (handleWebSocket 1 ''a'' 0 ready) 1) = {}"
    by (simp_all add: server_defs upstream_defs Let_def)
  from subscribe_registers_first_symbol_only [OF h] r h
  show ?thesis
    by (simp add: subscribers_def)
qed

text \<open>
  Against claim C10 as stated: a subscribe to \<open>aggregates\<close> with two symbols on a ready
  server, and a subscribe to \<open>trades\<close> with two symbols on a server without upstream
  client, both enter the key of the first symbol and acquire no symbol.
\<close>

theorem later_symbols_not_always_acquired_counterexample:
  "(\<exists>s'. subscribe 1 ''aggregates'' [''MSFT'', ''IBM''] 1 (handleWebSocket 1 ''a'' 0 ready) = Inr s'
        \<and> upstream_ready s'
        \<and> subscriptions s' ''aggregates:MSFT'' = Some {1}
        \<and> polygonSymbols s' ''MSFT'' = None
        \<and> polygonSymbols s' ''IBM'' = None)
   \<and> (\<exists>s'. subscribe 1 ''trades'' [''MSFT'', ''IBM''] 1 (handleWebSocket 1 ''a'' 0 initial) = Inr s'
        \<and> subscriptions s' ''trades:MSFT'' = Some {1}
        \<and> polygonSymbols s' ''MSFT'' = None
        \<and> polygonSymbols s' ''IBM'' = None)"
  by (simp add: server_defs upstream_defs Let_def)

subsection \<open>Delivery\<close>

text \<open>What one round of \<^verbatim>\<open>handleMessages\<close> puts on a queue: the message, for a client in
  the registry entry of exactly the message's channel whose queue has room.\<close>

lemma deliver_queue:
  "deliver msg s = Inr s' \<Longrightarrow>
   send (heap s' c) =
     (if c \<in> subscribers s (Channel msg) \<and> length (send (heap s c)) < send_capacity
      then send (heap s c) @ [msg] else send (heap s c))"
  by (auto simp: deliver_subscribers try_send_def split: if_splits)

text \<open>
  Claim C1, on the code. Client 1 subscribes to \<open>trades\<close> with symbols \<open>[AAPL]\<close> and
  client 2 to \<open>trades\<close> with no symbols; then the trade of AAPL at 150.25, size 100, arrives
  from upstream and is dispatched. Client 1 is registered under \<open>trades:AAPL\<close> while the
  message goes to the entry of \<open>trades\<close>: the queue of client 1 holds its confirmation and
  nothing else, the queue of client 2 its confirmation and the trade.
\<close>

theorem symbol_subscriber_misses_trade:
  "\<exists>s'. run [Accept 1 ''a'' 0, Accept 2 ''b'' 0,
              ClientFrame 1 (subscribe_frame ''trades'' [''AAPL'']) Second,
              ClientFrame 2 (subscribe_frame ''trades'' []) Second,
              UpstreamData aapl_trade (2 * Second), Dispatch] ready = Inr s'
        \<and> send (heap s' 1) =
            [\<lparr>Type = ''subscribed'', Channel = ''trades'', Data = NoData, Timestamp = 1000,
              Symbols = [''AAPL''], Metadata = None\<rparr>]
        \<and> send (heap s' 2) =
            [\<lparr>Type = ''subscribed'', Channel = ''trades'', Data = NoData, Timestamp = 1000,
              Symbols = [], Metadata = None\<rparr>,
             TransformPolygonMessage aapl_trade (2 * Second)]
        \<and> broadcast s' = []
        \<and> subscribers s' ''trades:AAPL'' = {1}
        \<and> subscribers s' ''trades'' = {2}"
  by (simp add: server_defs upstream_defs Let_def)

subsection \<open>Reference counts and upstream unsubscribes\<close>

text \<open>
  The two functions on one symbol, with a ready upstream client. \<^verbatim>\<open>subscribeToPolygon\<close>
  subscribes upstream when the symbol has no count and only counts otherwise;
  \<^verbatim>\<open>unsubscribeFromPolygon\<close> unsubscribes upstream and drops the entry when the count is at
  most 1 and only counts down otherwise.
\<close>

lemma subscribeToPolygon_single:
  assumes "polygonClient s = Some pc" and "IsConnected pc"
  shows "subscribeToPolygon [x] s =
     (case polygonSymbols s x of
        None \<Rightarrow> s\<lparr>polygonSymbols := (polygonSymbols s)(x \<mapsto> 1),
                   polygonClient := Some (snd (Subscribe [x] pc))\<rparr>
      | Some n \<Rightarrow> s\<lparr>polygonSymbols := (polygonSymbols s)(x \<mapsto> n + 1),
                     polygonClient := Some pc\<rparr>)"
  using assms by (simp add: subscribeToPolygon_def split: option.splits)

lemma unsubscribeFromPolygon_single:
  assumes "polygonClient s = Some pc" and "IsConnected pc"
  shows "unsubscribeFromPolygon [x] s =
     (case polygonSymbols s x of
        None \<Rightarrow> s\<lparr>polygonSymbols := polygonSymbols s, polygonClient := Some pc\<rparr>
      | Some n \<Rightarrow>
          if n \<le> 1
          then s\<lparr>polygonSymbols := (polygonSymbols s)(x := None),
                 polygonClient := Some (snd (Unsubscribe [x] pc))\<rparr>
          else s\<lparr>polygonSymbols := (polygonSymbols s)(x \<mapsto> n - 1),
                 polygonClient := Some pc\<rparr>)"
  using assms by (simp add: unsubscribeFromPolygon_def split: option.splits)

lemma Unsubscribe_single:
  "connected pc \<Longrightarrow>
   written (snd (Unsubscribe [x] pc)) =
     written pc @ [\<lparr>Action = ''unsubscribe'', Params = ''T.'' @ x @ '',Q.'' @ x @ '',A.'' @ x\<rparr>]"
  by (simp add: Unsubscribe_def WriteMessage_def)

text \<open>No run of the server writes an unsubscribe frame upstream, and no run lowers or
  removes a reference count: nothing calls \<^verbatim>\<open>unsubscribeFromPolygon\<close>.\<close>

lemma Subscribe_written:
  "written (snd (Subscribe symbols pc)) = written pc \<or>
   (\<exists>p. written (snd (Subscribe symbols pc)) = written pc @ [\<lparr>Action = ''subscribe'', Params = p\<rparr>])"
  by (simp add: Subscribe_def WriteMessage_def split: prod.splits)

lemma subscribeToPolygon_unsubscribe_frames [simp]:
  "unsubscribe_frames (subscribeToPolygon symbols s) = unsubscribe_frames s"
proof (cases "polygonClient s")
  case None
  then show ?thesis by (simp add: subscribeToPolygon_def)
next
  case (Some pc)
  obtain m new where l: "subscribe_count_loop symbols (polygonSymbols s, []) = (m, new)"
    by (cases "subscribe_count_loop symbols (polygonSymbols s, [])")
  from Subscribe_written [of new pc]
  have "filter (\<lambda>f. Action f = ''unsubscribe'') (written (snd (Subscribe new pc))) =
        filter (\<lambda>f. Action f = ''unsubscribe'') (written pc)"
    by auto
  with Some l show ?thesis
    by (simp add: subscribeToPolygon_def unsubscribe_frames_def upstream_written_def)
qed

lemma sendMessage_upstream:
  "sendMessage c msg s = Inr s' \<Longrightarrow> unsubscribe_frames s' = unsubscribe_frames s"
  by (auto simp: sendMessage_def unsubscribe_frames_def upstream_written_def split: if_splits)

lemma subscribe_upstream:
  "subscribe c channel symbols now s = Inr s' \<Longrightarrow> unsubscribe_frames s' = unsubscribe_frames s"
  by (auto simp: subscribe_def Let_def dest!: sendMessage_upstream split: if_splits)
     (simp_all add: unsubscribe_frames_def upstream_written_def)

lemma unsubscribe_upstream:
  "unsubscribe c channel now s = Inr s' \<Longrightarrow> unsubscribe_frames s' = unsubscribe_frames s"
  by (auto simp: unsubscribe_def Let_def dest!: sendMessage_upstream)
     (simp_all add: unsubscribe_frames_def upstream_written_def)

lemma handleMessage_upstream:
  "handleMessage c frame now s = Inr s' \<Longrightarrow> unsubscribe_frames s' = unsubscribe_frames s"
  by (cases frame)
     (auto split: if_splits dest: sendMessage_upstream subscribe_upstream unsubscribe_upstream)

lemma deliver_upstream:
  "deliver msg s = Inr s' \<Longrightarrow> unsubscribe_frames s' = unsubscribe_frames s"
  by (auto simp: deliver_def unsubscribe_frames_def upstream_written_def
      split: option.splits if_splits)

lemma timed_Inr:
  assumes "timed now f s = Inr s'"
  shows "enabled now s \<and> f (s\<lparr>clock := now\<rparr>) = Inr s'"
  using assms by (simp add: timed_def split: if_splits)

lemma perform_upstream:
  "perform a now s = Inr s' \<Longrightarrow> unsubscribe_frames s' = unsubscribe_frames s"
proof (cases a)
  case (AcquireUpstream symbols)
  assume "perform a now s = Inr s'"
  with AcquireUpstream show ?thesis by auto
next
  case (Reply c type channel symbols)
  assume "perform a now s = Inr s'"
  with Reply show ?thesis by (auto dest: sendMessage_upstream)
qed (auto simp: unsubscribe_frames_def upstream_written_def)

lemma handler_step_upstream:
  assumes "handler_step i now s = Inr s'"
  shows "unsubscribe_frames s' = unsubscribe_frames s"
proof -
  from assms have "next_action i now (s\<lparr>clock := now\<rparr>) = Inr s'"
    by (simp add: handler_step_def timed_def split: if_splits)
  then obtain a g where "perform a now (s\<lparr>clock := now, goroutines := g\<rparr>) = Inr s'"
    by (auto simp: next_action_def split: if_splits list.splits)
  from perform_upstream [OF this] show ?thesis
    by (simp add: unsubscribe_frames_def upstream_written_def)
qed

lemma handler_steps_upstream:
  "handler_steps n i now s = Inr s' \<Longrightarrow> unsubscribe_frames s' = unsubscribe_frames s"
proof (induction n arbitrary: s)
  case 0
  then show ?case by simp
next
  case (Suc n)
  then obtain s1 where "handler_step i now s = Inr s1" "handler_steps n i now s1 = Inr s'"
    by (auto split: sum.splits)
  with Suc.IH [of s1] handler_step_upstream [of i now s s1] show ?case by simp
qed

lemma read_frame_upstream:
  "read_frame c frame now s = Inr s' \<Longrightarrow> unsubscribe_frames s' = unsubscribe_frames s"
  by (auto simp: read_frame_def timed_def readPump_read_def spawn_def unsubscribe_frames_def
      upstream_written_def split: if_splits)

lemma step_upstream:
  assumes "step op s = Inr s'"
  shows "unsubscribe_frames s' = unsubscribe_frames s"
proof (cases op)
  case (ReadFrame c frame now)
  with assms show ?thesis by (simp add: read_frame_upstream)
next
  case (Handler i now)
  with assms show ?thesis by (simp add: handler_step_upstream)
next
  case (ClientFrame c frame now)
  with assms obtain s1 where "read_frame c frame now s = Inr s1"
    "handler_steps (length (handleMessage_steps c frame)) (length (goroutines s)) now s1 = Inr s'"
    by (auto split: sum.splits)
  with read_frame_upstream [of c frame now s s1]
    handler_steps_upstream [of "length (handleMessage_steps c frame)" "length (goroutines s)"
      now s1 s']
  show ?thesis by simp
next
  case Dispatch
  with assms show ?thesis
    by (auto simp: handleMessages_def split: list.splits dest!: deliver_upstream)
       (simp add: unsubscribe_frames_def upstream_written_def)
qed (use assms in \<open>auto simp: unsubscribe_frames_def upstream_written_def handleWebSocket_def
      registerClient_def readPump_pong_def readPump_exit_def unregisterClient_def writePump_def
      Let_def handlePolygonMessage_def broadcastMessage_def cleanupStaleConnections_def
      timed_def split: if_splits\<close>)

lemma run_never_unsubscribes_upstream:
  "run ops s = Inr s' \<Longrightarrow> unsubscribe_frames s' = unsubscribe_frames s"
proof (induction ops arbitrary: s)
  case Nil
  then show ?case by simp
next
  case (Cons op ops)
  then obtain s1 where "step op s = Inr s1" "run ops s1 = Inr s'"
    by (auto split: sum.splits)
  with Cons.IH [of s1] step_upstream [of op s s1] show ?case by simp
qed

lemma subscribeToPolygon_count_at_least:
  "count_at_least s x n \<Longrightarrow> count_at_least (subscribeToPolygon symbols s) x n"
  by (auto simp: count_at_least_def subscribeToPolygon_counts split: option.splits)

lemma sendMessage_count_at_least:
  "sendMessage c msg s = Inr s' \<Longrightarrow> count_at_least s' x n = count_at_least s x n"
  by (auto simp: sendMessage_def count_at_least_def split: if_splits)

lemma subscribe_count_at_least:
  assumes "subscribe c channel symbols now s = Inr s'" and "count_at_least s x n"
  shows "count_at_least s' x n"
proof -
  define s2 where "s2 = s\<lparr>heap := (heap s)(c := (heap s c)\<lparr>subscriptions_c :=
        insert (subscription_key channel symbols) (subscriptions_c (heap s c))\<rparr>),
      subscriptions := add_subscriber (subscription_key channel symbols) c (subscriptions s)\<rparr>"
  define G where "G = (length symbols > 0 \<and>
      (channel = ''trades'' \<or> channel = ''quotes'' \<or> channel = ''market-data''))"
  define s3 where "s3 = (if G then subscribeToPolygon symbols s2 else s2)"
  have "subscribe c channel symbols now s = sendMessage c
           \<lparr>Type = ''subscribed'', Channel = channel, Data = NoData, Timestamp = UnixMilli now,
            Symbols = symbols, Metadata = None\<rparr> s3"
    unfolding s3_def s2_def G_def by (simp add: subscribe_def Let_def)
  with assms(1) have send: "sendMessage c
           \<lparr>Type = ''subscribed'', Channel = channel, Data = NoData, Timestamp = UnixMilli now,
            Symbols = symbols, Metadata = None\<rparr> s3 = Inr s'"
    by simp
  have "count_at_least s2 x n"
    using assms(2) by (simp add: count_at_least_def s2_def)
  then have "count_at_least s3 x n"
    by (simp add: s3_def subscribeToPolygon_count_at_least)
  with sendMessage_count_at_least [OF send] show ?thesis by simp
qed

lemma unsubscribe_count_at_least:
  "unsubscribe c channel now s = Inr s' \<Longrightarrow> count_at_least s x n \<Longrightarrow> count_at_least s' x n"
  by (auto simp: unsubscribe_def Let_def count_at_least_def sendMessage_def split: if_splits)

lemma handleMessage_count_at_least:
  "handleMessage c frame now s = Inr s' \<Longrightarrow> count_at_least s x n \<Longrightarrow> count_at_least s' x n"
  by (cases frame)
     (auto split: if_splits
       dest: subscribe_count_at_least unsubscribe_count_at_least sendMessage_count_at_least)

lemma perform_count_at_least:
  assumes "perform a now s = Inr s'" and "count_at_least s x n"
  shows "count_at_least s' x n"
proof (cases a)
  case (AcquireUpstream symbols)
  with assms show ?thesis by (auto simp: subscribeToPolygon_count_at_least)
next
  case (Reply c type channel symbols)
  with assms show ?thesis by (auto dest: sendMessage_count_at_least)
qed (use assms in \<open>auto simp: count_at_least_def\<close>)

lemma handler_step_count_at_least:
  assumes "handler_step i now s = Inr s'" and "count_at_least s x n"
  shows "count_at_least s' x n"
proof -
  from assms(1) have "next_action i now (s\<lparr>clock := now\<rparr>) = Inr s'"
    by (simp add: handler_step_def timed_def split: if_splits)
  then obtain a g where p: "perform a now (s\<lparr>clock := now, goroutines := g\<rparr>) = Inr s'"
    by (auto simp: next_action_def split: if_splits list.splits)
  from assms(2) have "count_at_least (s\<lparr>clock := now, goroutines := g\<rparr>) x n"
    by (simp add: count_at_least_def)
  from perform_count_at_least [OF p this] show ?thesis .
qed

lemma handler_steps_count_at_least:
  "handler_steps m i now s = Inr s' \<Longrightarrow> count_at_least s x n \<Longrightarrow> count_at_least s' x n"
proof (induction m arbitrary: s)
  case 0
  then show ?case by simp
next
  case (Suc m)
  then obtain s1 where "handler_step i now s = Inr s1" "handler_steps m i now s1 = Inr s'"
    by (auto split: sum.splits)
  with Suc.IH [of s1] handler_step_count_at_least [of i now s s1] Suc.prems(2)
  show ?case by simp
qed

lemma read_frame_count_at_least:
  "read_frame c frame now s = Inr s' \<Longrightarrow> count_at_least s x n \<Longrightarrow> count_at_least s' x n"
  by (auto simp: read_frame_def timed_def readPump_read_def spawn_def count_at_least_def
      split: if_splits)

lemma step_count_at_least:
  assumes "step op s = Inr s'" and "count_at_least s x n"
  shows "count_at_least s' x n"
proof (cases op)
  case (ReadFrame c frame now)
  with assms show ?thesis by (auto dest: read_frame_count_at_least)
next
  case (Handler i now)
  with assms show ?thesis by (auto dest: handler_step_count_at_least)
next
  case (ClientFrame c frame now)
  with assms(1) obtain s1 where "read_frame c frame now s = Inr s1"
    "handler_steps (length (handleMessage_steps c frame)) (length (goroutines s)) now s1 = Inr s'"
    by (auto split: sum.splits)
  with read_frame_count_at_least [of c frame now s s1 x n]
    handler_steps_count_at_least [of "length (handleMessage_steps c frame)"
      "length (goroutines s)" now s1 s' x n] assms(2)
  show ?thesis by simp
next
  case Dispatch
  with assms show ?thesis
    by (auto simp: handleMessages_def deliver_def count_at_least_def
        split: list.splits option.splits if_splits)
qed (use assms in \<open>auto simp: count_at_least_def handleWebSocket_def
      registerClient_def readPump_pong_def readPump_exit_def unregisterClient_def writePump_def
      Let_def handlePolygonMessage_def broadcastMessage_def cleanupStaleConnections_def
      timed_def split: if_splits\<close>)

lemma run_count_never_falls:
  "run ops s = Inr s' \<Longrightarrow> count_at_least s x n \<Longrightarrow> count_at_least s' x n"
proof (induction ops arbitrary: s)
  case Nil
  then show ?case by simp
next
  case (Cons op ops)
  then obtain s1 where "step op s = Inr s1" "run ops s1 = Inr s'"
    by (auto split: sum.splits)
  with Cons.IH [of s1] step_count_at_least [of op s s1] Cons.prems(2) show ?case by simp
qed

text \<open>
  Claim C2, on the code. Two clients subscribe to \<open>trades\<close> with symbol MSFT and both
  unsubscribe, by channel and by key: one subscribe frame for MSFT went upstream, no
  unsubscribe frame follows the last unsubscribe, and the count of MSFT stays at 2.
\<close>

theorem last_unsubscribe_sends_nothing_upstream:
  "\<exists>s'. run [Accept 1 ''a'' 0, Accept 2 ''b'' 0,
              ClientFrame 1 (subscribe_frame ''trades'' [''MSFT'']) 1,
              ClientFrame 2 (subscribe_frame ''trades'' [''MSFT'']) 2,
              ClientFrame 1 (unsubscribe_frame ''trades'' [''MSFT'']) 3,
              ClientFrame 1 (unsubscribe_frame ''trades:MSFT'' []) 4,
              ClientFrame 2 (unsubscribe_frame ''trades'' [''MSFT'']) 5,
              ClientFrame 2 (unsubscribe_frame ''trades:MSFT'' []) 6] ready = Inr s'
        \<and> upstream_written s' =
            upstream_written ready @ [\<lparr>Action = ''subscribe'', Params = ''T.MSFT,Q.MSFT,A.MSFT''\<rparr>]
        \<and> subscribers s' ''trades:MSFT'' = {}
        \<and> subscriptions_c (heap s' 1) = {}
        \<and> subscriptions_c (heap s' 2) = {}
        \<and> polygonSymbols s' ''MSFT'' = Some 2"
  by (simp add: server_defs upstream_defs Let_def insert_Diff_if)

text \<open>
  Claim C3, on the code. One client subscribes to \<open>trades\<close> and to \<open>quotes\<close> with symbol
  MSFT and disconnects: no client is left and the registry entries are empty, but the
  count of MSFT is 2.
\<close>

theorem refcount_outlives_session:
  "\<exists>s'. run [Accept 1 ''a'' 0,
              ClientFrame 1 (subscribe_frame ''trades'' [''MSFT'']) 1,
              ClientFrame 1 (subscribe_frame ''quotes'' [''MSFT'']) 2,
              ClientGone 1] ready = Inr s'
        \<and> clients s' = {}
        \<and> subscribers s' ''trades:MSFT'' = {}
        \<and> subscribers s' ''quotes:MSFT'' = {}
        \<and> polygonSymbols s' ''MSFT'' = Some 2"
  by (simp add: server_defs upstream_defs Let_def)

subsection \<open>The sweeper\<close>












end
